theory Spec2Isabelle
  imports Main
begin

section \<open>Python string primitives\<close>

text \<open>
  Text is a list of characters; a character stands for a code point below 256.
  \<open>is_space\<close> is \<^verbatim>\<open>str.isspace\<close> on that range, \<open>lower_char\<close> is
  \<^verbatim>\<open>str.lower\<close> on one character of that range.
\<close>

definition is_space :: "char \<Rightarrow> bool" where
  "is_space c = (let n = (of_char c :: nat) in
     (9 \<le> n \<and> n \<le> 13) \<or> (28 \<le> n \<and> n \<le> 32) \<or> n = 133 \<or> n = 160)"

definition lower_char :: "char \<Rightarrow> char" where
  "lower_char c = (let n = (of_char c :: nat) in
     if (65 \<le> n \<and> n \<le> 90) \<or> (192 \<le> n \<and> n \<le> 222 \<and> n \<noteq> 215)
     then char_of (n + 32) else c)"

definition lower :: "string \<Rightarrow> string" where
  "lower s = map lower_char s"

definition strip :: "string \<Rightarrow> string" where
  "strip s = rev (dropWhile is_space (rev (dropWhile is_space s)))"

fun startswith :: "string \<Rightarrow> string \<Rightarrow> bool" where
  "startswith [] s = True"
| "startswith (p # ps) [] = False"
| "startswith (p # ps) (c # cs) = (p = c \<and> startswith ps cs)"

text \<open>\<^verbatim>\<open>t in s\<close> on strings: \<open>t\<close> occurs in \<open>s\<close> as a contiguous run.\<close>

fun contains :: "string \<Rightarrow> string \<Rightarrow> bool" where
  "contains t [] = (t = [])"
| "contains t (c # cs) = (startswith t (c # cs) \<or> contains t cs)"

definition count_char :: "char \<Rightarrow> string \<Rightarrow> nat" where
  "count_char c s = length (filter (\<lambda>x. x = c) s)"

text \<open>\<^verbatim>\<open>s.split()\<close>: the maximal runs of non-whitespace characters, in order.\<close>

fun split_go :: "string \<Rightarrow> string \<Rightarrow> string list" where
  "split_go cur [] = (if cur = [] then [] else [cur])"
| "split_go cur (c # cs) =
     (if is_space c then (if cur = [] then split_go [] cs else cur # split_go [] cs)
      else split_go (cur @ [c]) cs)"

definition split_ws :: "string \<Rightarrow> string list" where
  "split_ws s = split_go [] s"

text \<open>
  \<^verbatim>\<open>s.replace(old, new)\<close>: the occurrences of \<open>old\<close> are found from the left and do
  not overlap; an empty \<open>old\<close> matches before every character and at the end.
\<close>

function replace :: "string \<Rightarrow> string \<Rightarrow> string \<Rightarrow> string" where
  "replace old new [] = (if old = [] then new else [])"
| "replace old new (c # cs) =
     (if old = [] then new @ c # replace old new cs
      else if startswith old (c # cs)
           then new @ replace old new (drop (length old) (c # cs))
           else c # replace old new cs)"
  by pat_completeness auto
termination
  by (relation "measure (\<lambda>(old, new, s). length s)") auto

section \<open>SQL safety validator (tools/bigquery\_tools.py)\<close>

definition dangerous_keywords :: "string list" where
  "dangerous_keywords =
     [''drop'', ''delete'', ''truncate'', ''insert'', ''update'', ''alter'', ''create'']"

text \<open>The loop over the keywords: the first keyword that is among the tokens.\<close>

fun first_dangerous :: "string list \<Rightarrow> string list \<Rightarrow> string option" where
  "first_dangerous [] toks = None"
| "first_dangerous (keyword # ks) toks =
     (if keyword \<in> set toks then Some keyword else first_dangerous ks toks)"

definition validate_sql_query :: "string \<Rightarrow> bool \<times> string option" where
  "validate_sql_query sql_query =
     (let sql_lower = strip (lower sql_query) in
      case first_dangerous dangerous_keywords (split_ws sql_lower) of
        Some keyword \<Rightarrow>
          (False, Some (''Query contains dangerous keyword: '' @ keyword
                        @ ''. Only SELECT queries are allowed.''))
      | None \<Rightarrow>
          if \<not> startswith ''select'' sql_lower
          then (False, Some ''Query must be a SELECT statement.'')
          else if count_char CHR ''('' sql_lower \<noteq> count_char CHR '')'' sql_lower
          then (False, Some ''Unbalanced parentheses in query.'')
          else (True, None))"

section \<open>Workflow state (agent/state.py)\<close>

text \<open>
  A pandas data frame as far as the workflow looks at it: its column names and its rows.
  \<^verbatim>\<open>df.empty\<close> holds when either axis has length 0; \<^verbatim>\<open>len(df)\<close> is the number
  of rows.
\<close>

record dataframe =
  columns :: "string list"
  rows :: "string list list"

definition empty :: "dataframe \<Rightarrow> bool" where
  "empty df = (rows df = [] \<or> columns df = [])"

definition len :: "dataframe \<Rightarrow> nat" where
  "len df = length (rows df)"

datatype message = HumanMessage string | AIMessage string

text \<open>A field descriptor of the catalog: name, type, description.\<close>

type_synonym field = "string \<times> string \<times> string"

type_synonym table_schemas = "(string \<times> field list) list"

record agent_state =
  messages :: "message list"
  user_query :: string
  analysis_type :: "string option"
  sql_query :: "string option"
  query_results :: "dataframe option"
  insights :: "string option"
  error :: "string option"
  retry_count :: int
  schema_context :: "table_schemas option"

text \<open>
  A node returns a dictionary naming the fields it sets. \<open>None\<close> in an update is a key the
  dictionary does not have; \<open>Some None\<close> is a key set to Python's \<^verbatim>\<open>None\<close>.
\<close>

record state_update =
  u_messages :: "message list option"
  u_analysis_type :: "string option option"
  u_sql_query :: "string option option"
  u_query_results :: "dataframe option option"
  u_insights :: "string option option"
  u_error :: "string option option"
  u_retry_count :: "int option"
  u_schema_context :: "table_schemas option option"

definition no_update :: state_update where
  "no_update = \<lparr>u_messages = None, u_analysis_type = None, u_sql_query = None,
     u_query_results = None, u_insights = None, u_error = None, u_retry_count = None,
     u_schema_context = None\<rparr>"

text \<open>
  The merge of an update into the state: \<open>messages\<close> is annotated with
  \<^verbatim>\<open>operator.add\<close>, every other field takes the new value when the update has the key.
\<close>

definition apply_update :: "agent_state \<Rightarrow> state_update \<Rightarrow> agent_state" where
  "apply_update st u =
     \<lparr>messages = (case u_messages u of None \<Rightarrow> messages st | Some ms \<Rightarrow> messages st @ ms),
      user_query = user_query st,
      analysis_type = (case u_analysis_type u of None \<Rightarrow> analysis_type st | Some v \<Rightarrow> v),
      sql_query = (case u_sql_query u of None \<Rightarrow> sql_query st | Some v \<Rightarrow> v),
      query_results = (case u_query_results u of None \<Rightarrow> query_results st | Some v \<Rightarrow> v),
      insights = (case u_insights u of None \<Rightarrow> insights st | Some v \<Rightarrow> v),
      error = (case u_error u of None \<Rightarrow> error st | Some v \<Rightarrow> v),
      retry_count = (case u_retry_count u of None \<Rightarrow> retry_count st | Some v \<Rightarrow> v),
      schema_context = (case u_schema_context u of None \<Rightarrow> schema_context st | Some v \<Rightarrow> v)\<rparr>"

definition GENERAL_QUERY :: string where
  "GENERAL_QUERY = ''general_query''"

definition all_types :: "string list" where
  "all_types = [''customer_segmentation'', ''product_performance'', ''sales_trends'',
     ''geographic_patterns'', GENERAL_QUERY]"

text \<open>Python truthiness of an optional string: neither \<^verbatim>\<open>None\<close> nor empty.\<close>

fun truthy :: "string option \<Rightarrow> bool" where
  "truthy None = False"
| "truthy (Some s) = (s \<noteq> [])"

section \<open>External collaborators\<close>

text \<open>
  The prompt handed to the generation backend, by template and arguments; the template
  texts are configuration and are not rendered here.
\<close>

datatype prompt =
    INTENT_ANALYSIS_PROMPT string
  | SQL_GENERATION_PROMPT table_schemas string "string option"
  | ERROR_RECOVERY_PROMPT string string string
  | INSIGHT_GENERATION_PROMPT string "string option" "string option" dataframe

text \<open>
  The backend, the query executor and the catalog are arbitrary functions of the number
  of calls made before and of the argument; \<open>Inl\<close> is the text of the exception raised.
\<close>

record env =
  llm_invoke :: "nat \<Rightarrow> prompt \<Rightarrow> string + string"
  execute_query_direct :: "nat \<Rightarrow> string \<Rightarrow> string + dataframe"
  get_all_table_schemas :: "nat \<Rightarrow> string + table_schemas"

text \<open>What has been asked of the collaborators so far.\<close>

record world =
  llm_calls :: "prompt list"
  executed :: "string list"
  schema_fetches :: nat

definition world0 :: world where
  "world0 = \<lparr>llm_calls = [], executed = [], schema_fetches = 0\<rparr>"

definition call_llm :: "env \<Rightarrow> world \<Rightarrow> prompt \<Rightarrow> world \<times> (string + string)" where
  "call_llm e w p = (w\<lparr>llm_calls := llm_calls w @ [p]\<rparr>, llm_invoke e (length (llm_calls w)) p)"

definition call_executor :: "env \<Rightarrow> world \<Rightarrow> string \<Rightarrow> world \<times> (string + dataframe)" where
  "call_executor e w q =
     (w\<lparr>executed := executed w @ [q]\<rparr>, execute_query_direct e (length (executed w)) q)"

definition call_catalog :: "env \<Rightarrow> world \<Rightarrow> world \<times> (string + table_schemas)" where
  "call_catalog e w =
     (w\<lparr>schema_fetches := Suc (schema_fetches w)\<rparr>, get_all_table_schemas e (schema_fetches w))"

section \<open>Text formatting\<close>

definition NL :: string where
  "NL = [CHR 0x0A]"

text \<open>An optional string inside an f-string: \<^verbatim>\<open>None\<close> prints as its name.\<close>

fun fmt :: "string option \<Rightarrow> string" where
  "fmt None = ''None''"
| "fmt (Some s) = s"

definition digit_char :: "nat \<Rightarrow> char" where
  "digit_char d = char_of (48 + d)"

function str_nat :: "nat \<Rightarrow> string" where
  "str_nat n = (if n < 10 then [digit_char n] else str_nat (n div 10) @ [digit_char (n mod 10)])"
  by pat_completeness auto
termination
  by (relation "measure (\<lambda>n. n)") auto

declare str_nat.simps [simp del]

fun join :: "string \<Rightarrow> string list \<Rightarrow> string" where
  "join sep [] = []"
| "join sep [x] = x"
| "join sep (x # y # ys) = x @ sep @ join sep (y # ys)"

section \<open>Graph nodes (agent/nodes.py)\<close>

definition analyze_request_node :: "env \<Rightarrow> world \<Rightarrow> agent_state \<Rightarrow> world \<times> state_update" where
  "analyze_request_node e w state =
     (case call_llm e w (INTENT_ANALYSIS_PROMPT (user_query state)) of
        (w', Inr content) \<Rightarrow>
          (let a = lower (strip content);
               a' = (if a \<in> set all_types then a else GENERAL_QUERY)
           in (w', no_update\<lparr>u_analysis_type := Some (Some a'), u_error := Some None\<rparr>))
      | (w', Inl exn) \<Rightarrow>
          (w', no_update\<lparr>u_analysis_type := Some (Some GENERAL_QUERY),
                          u_error := Some (Some (''Intent analysis error: '' @ exn))\<rparr>))"

text \<open>The clean-up of markdown fences around the generated statement.\<close>

definition clean_markdown :: "string \<Rightarrow> string" where
  "clean_markdown content =
     (let sql = strip content in
      if startswith ''```sql'' sql then strip (replace ''```'' [] (replace ''```sql'' [] sql))
      else if startswith ''```'' sql then strip (replace ''```'' [] sql)
      else sql)"

text \<open>The cached schema when the state has a non-empty one, a fetch from the catalog otherwise.\<close>

definition obtain_schema :: "env \<Rightarrow> world \<Rightarrow> agent_state \<Rightarrow> world \<times> (string + table_schemas)" where
  "obtain_schema e w state =
     (case schema_context state of
        None \<Rightarrow> call_catalog e w
      | Some sc \<Rightarrow> if sc = [] then call_catalog e w else (w, Inr sc))"

definition generate_sql_node :: "env \<Rightarrow> world \<Rightarrow> agent_state \<Rightarrow> world \<times> state_update" where
  "generate_sql_node e w state =
     (case obtain_schema e w state of
        (w1, Inl exn) \<Rightarrow>
          (w1, no_update\<lparr>u_error := Some (Some (''Schema retrieval error: '' @ exn)),
                          u_sql_query := Some None\<rparr>)
      | (w1, Inr sc) \<Rightarrow>
          (let failed_query = (if truthy (error state) then sql_query state else None);
               error_message = (if truthy failed_query then error state else None);
               p = (if truthy failed_query \<and> truthy error_message
                    then ERROR_RECOVERY_PROMPT (fmt error_message) (fmt failed_query)
                           (user_query state)
                    else SQL_GENERATION_PROMPT sc (user_query state) (analysis_type state))
           in case call_llm e w1 p of
                (w2, Inl exn) \<Rightarrow>
                  (w2, no_update\<lparr>u_error := Some (Some (''SQL generation error: '' @ exn)),
                                  u_sql_query := Some None\<rparr>)
              | (w2, Inr content) \<Rightarrow>
                  (let sql = clean_markdown content;
                       (is_valid, validation_error) = validate_sql_query sql
                   in if \<not> is_valid
                      then (w2, no_update\<lparr>u_error :=
                                   Some (Some (''Invalid SQL: '' @ fmt validation_error)),
                                 u_sql_query := Some (Some sql)\<rparr>)
                      else (w2, no_update\<lparr>u_sql_query := Some (Some sql),
                                 u_schema_context := Some (Some sc),
                                 u_error := Some None\<rparr>))))"

definition no_query_update :: state_update where
  "no_query_update =
     no_update\<lparr>u_error := Some (Some ''No SQL query to execute''), u_query_results := Some None\<rparr>"

definition execute_query_node :: "env \<Rightarrow> world \<Rightarrow> agent_state \<Rightarrow> world \<times> state_update" where
  "execute_query_node e w state =
     (case sql_query state of
        None \<Rightarrow> (w, no_query_update)
      | Some q \<Rightarrow>
          if q = [] then (w, no_query_update)
          else (case call_executor e w q of
                  (w', Inr df) \<Rightarrow>
                    (w', no_update\<lparr>u_query_results := Some (Some df), u_error := Some None,
                                    u_retry_count := Some 0\<rparr>)
                | (w', Inl error_msg) \<Rightarrow>
                    (w', no_update\<lparr>u_error := Some (Some (''Query execution error: '' @ error_msg)),
                                    u_query_results := Some None,
                                    u_retry_count := Some (retry_count state + 1)\<rparr>)))"

definition no_data_insight :: string where
  "no_data_insight =
     ''No data was returned from the query. The requested analysis could not be completed.''"

definition no_data_update :: state_update where
  "no_data_update = no_update\<lparr>u_insights := Some (Some no_data_insight), u_error := Some None\<rparr>"

definition fallback_insights :: "dataframe \<Rightarrow> string" where
  "fallback_insights df =
     ''Query executed successfully and returned '' @ str_nat (len df) @ '' rows. ''
     @ ''Columns: '' @ join '', '' (columns df) @ ''. ''
     @ ''However, detailed analysis could not be generated due to an error.''"

definition analyze_results_node :: "env \<Rightarrow> world \<Rightarrow> agent_state \<Rightarrow> world \<times> state_update" where
  "analyze_results_node e w state =
     (case query_results state of
        None \<Rightarrow> (w, no_data_update)
      | Some df \<Rightarrow>
          if empty df then (w, no_data_update)
          else (case call_llm e w (INSIGHT_GENERATION_PROMPT (user_query state)
                                     (analysis_type state) (sql_query state) df) of
                  (w', Inr content) \<Rightarrow>
                    (w', no_update\<lparr>u_insights := Some (Some (strip content)), u_error := Some None\<rparr>)
                | (w', Inl exn) \<Rightarrow>
                    (w', no_update\<lparr>u_insights := Some (Some (fallback_insights df)),
                                    u_error := Some (Some (''Insight generation error: '' @ exn))\<rparr>)))"

text \<open>
  The respond node raises when the message content would be \<^verbatim>\<open>None\<close> (no error and no
  insights): \<open>Inl\<close> names the exception.
\<close>

definition has_rows :: "dataframe option \<Rightarrow> bool" where
  "has_rows r = (case r of None \<Rightarrow> False | Some df \<Rightarrow> \<not> empty df)"

definition respond_node :: "agent_state \<Rightarrow> string + state_update" where
  "respond_node state =
     (let response_content =
            (if truthy (error state) \<and> \<not> truthy (insights state)
             then Some (''I apologize, but I encountered an error processing your request:''
                        @ NL @ NL @ fmt (error state) @ NL @ NL
                        @ ''Please try rephrasing your question or ask something else.'')
             else if truthy (error state) \<and> truthy (insights state)
             then Some (fmt (insights state) @ NL @ NL
                        @ ''(Note: There was a minor issue: '' @ fmt (error state) @ '')'')
             else insights state)
      in case response_content of
           None \<Rightarrow> Inl (if has_rows (query_results state) then ''TypeError'' else ''ValidationError'')
         | Some c \<Rightarrow>
             (let c' = (if has_rows (query_results state)
                        then c @ NL @ NL @ ''---'' @ NL @ ''Data Summary: ''
                             @ str_nat (case query_results state of None \<Rightarrow> 0 | Some df \<Rightarrow> len df)
                             @ '' rows analyzed''
                        else c)
              in Inr (no_update\<lparr>u_messages := Some [AIMessage c']\<rparr>)))"

definition non_retryable :: "string list" where
  "non_retryable = [''permission'', ''authentication'', ''credentials'', ''quota'']"

text \<open>The loop over the denylist: whether some term occurs in the lowercased error.\<close>

fun any_term_in :: "string list \<Rightarrow> string \<Rightarrow> bool" where
  "any_term_in [] error_lower = False"
| "any_term_in (t # ts) error_lower =
     (if contains t error_lower then True else any_term_in ts error_lower)"

definition max_retries :: int where
  "max_retries = 2"

definition should_retry_query :: "agent_state \<Rightarrow> bool" where
  "should_retry_query state =
     (if truthy (error state) \<and> retry_count state < max_retries
      then \<not> any_term_in non_retryable (lower (fmt (error state)))
      else False)"

section \<open>The graph (agent/graph.py)\<close>

datatype node = Analyze_request | Generate_sql | Execute_query | Analyze_results | Respond

definition route_after_execution :: "agent_state \<Rightarrow> node" where
  "route_after_execution state =
     (if truthy (error state) \<and> should_retry_query state then Generate_sql
      else if query_results state \<noteq> None then Analyze_results
      else if truthy (error state) then Respond
      else Analyze_results)"

text \<open>The edges; \<open>None\<close> is the end of the graph.\<close>

fun next_node :: "node \<Rightarrow> agent_state \<Rightarrow> node option" where
  "next_node Analyze_request state = Some Generate_sql"
| "next_node Generate_sql state = Some Execute_query"
| "next_node Execute_query state = Some (route_after_execution state)"
| "next_node Analyze_results state = Some Respond"
| "next_node Respond state = None"

fun run_node :: "env \<Rightarrow> node \<Rightarrow> world \<Rightarrow> agent_state \<Rightarrow> string + (world \<times> state_update)" where
  "run_node e Analyze_request w state = Inr (analyze_request_node e w state)"
| "run_node e Generate_sql w state = Inr (generate_sql_node e w state)"
| "run_node e Execute_query w state = Inr (execute_query_node e w state)"
| "run_node e Analyze_results w state = Inr (analyze_results_node e w state)"
| "run_node e Respond w state =
     (case respond_node state of Inl exn \<Rightarrow> Inl exn | Inr u \<Rightarrow> Inr (w, u))"

text \<open>
  A run of the compiled graph from a node: each step runs the node, merges its update and
  follows the edge. The engine gives up after a bounded number of steps, the fuel.
\<close>

datatype run_result = Completed world agent_state | Raised string | Recursion_limit

fun run_graph :: "env \<Rightarrow> nat \<Rightarrow> node \<Rightarrow> world \<Rightarrow> agent_state \<Rightarrow> run_result" where
  "run_graph e 0 nd w state = Recursion_limit"
| "run_graph e (Suc k) nd w state =
     (case run_node e nd w state of
        Inl exn \<Rightarrow> Raised exn
      | Inr (w', u) \<Rightarrow>
          (let state' = apply_update state u in
           case next_node nd state' of
             None \<Rightarrow> Completed w' state'
           | Some nd' \<Rightarrow> run_graph e k nd' w' state'))"

definition initial_state :: "string \<Rightarrow> agent_state" where
  "initial_state q = \<lparr>messages = [], user_query = q, analysis_type = None, sql_query = None,
     query_results = None, insights = None, error = None, retry_count = 0,
     schema_context = None\<rparr>"

section \<open>Statements under test and fixtures\<close>

text \<open>
  The retry decision as the specification words it: an error is present, fewer than two
  retries were made, and the lowercased error text has none of the four terms.
\<close>

definition retry_permitted_spec :: "string option \<Rightarrow> int \<Rightarrow> bool" where
  "retry_permitted_spec err rc =
     (case err of
        None \<Rightarrow> False
      | Some e \<Rightarrow> rc < 2 \<and> \<not> contains ''permission'' (lower e)
                  \<and> \<not> contains ''authentication'' (lower e)
                  \<and> \<not> contains ''credentials'' (lower e)
                  \<and> \<not> contains ''quota'' (lower e))"

text \<open>The routing as the specification words it, with "present" read as "not absent".\<close>

definition route_after_execution_spec :: "agent_state \<Rightarrow> node" where
  "route_after_execution_spec state =
     (if error state \<noteq> None \<and> retry_permitted_spec (error state) (retry_count state)
      then Generate_sql
      else if query_results state \<noteq> None then Analyze_results
      else if error state \<noteq> None then Respond
      else Analyze_results)"

text \<open>A statement wrapped in a fenced code block: tagged sql, bare, and with any tag.\<close>

definition fenced_sql :: "string \<Rightarrow> string" where
  "fenced_sql s = ''```sql'' @ NL @ s @ NL @ ''```''"

definition fenced_bare :: "string \<Rightarrow> string" where
  "fenced_bare s = ''```'' @ NL @ s @ NL @ ''```''"

definition fenced_tagged :: "string \<Rightarrow> string \<Rightarrow> string" where
  "fenced_tagged tag s = ''```'' @ tag @ NL @ s @ NL @ ''```''"

definition question :: string where
  "question = ''How many orders?''"

definition state_with_error :: "string \<Rightarrow> int \<Rightarrow> agent_state" where
  "state_with_error e rc = (initial_state question)\<lparr>error := Some e, retry_count := rc\<rparr>"

definition demo_schemas :: table_schemas where
  "demo_schemas = [(''orders'', [(''order_id'', ''INTEGER'', ''key'')]), (''order_items'', []),
     (''products'', []), (''users'', [])]"

definition demo_results :: dataframe where
  "demo_results = \<lparr>columns = [''n''], rows = [[''1'']]\<rparr>"

definition no_rows :: dataframe where
  "no_rows = \<lparr>columns = [''n''], rows = []\<rparr>"

text \<open>
  A scripted environment: the n-th call of the backend and of the executor gets the n-th
  entry of its script; the catalog always answers.
\<close>

definition scripted_env :: "(string + string) list \<Rightarrow> (string + dataframe) list \<Rightarrow> env" where
  "scripted_env answers outcomes =
     \<lparr>llm_invoke = (\<lambda>n p. if n < length answers then answers ! n else Inl ''no answer''),
      execute_query_direct =
        (\<lambda>n q. if n < length outcomes then outcomes ! n else Inl ''no outcome''),
      get_all_table_schemas = (\<lambda>n. Inr demo_schemas)\<rparr>"

text \<open>The backend answers with a destructive statement, then with a query.\<close>

definition env_drop :: env where
  "env_drop =
     scripted_env [Inr ''general_query'', Inr ''DROP TABLE t'', Inr ''SELECT 1'', Inr ''One row.'']
       [Inl ''Syntax error'', Inr demo_results]"

text \<open>The backend fails on the first SQL generation, then answers.\<close>

definition env_llm_down :: env where
  "env_llm_down =
     scripted_env [Inr ''general_query'', Inl ''backend unavailable'', Inr ''SELECT 1'',
                   Inr ''One row.'']
       [Inr demo_results]"

text \<open>A generation step on its own: the backend's first answer is the destructive statement.\<close>

definition env_drop_only :: env where
  "env_drop_only = scripted_env [Inr ''DROP TABLE t''] [Inl ''Table t not found'']"

definition env_boom :: env where
  "env_boom = scripted_env [] [Inl ''boom'']"

fun final_world :: "run_result \<Rightarrow> world option" where
  "final_world (Completed w state) = Some w"
| "final_world (Raised exn) = None"
| "final_world Recursion_limit = None"

fun final_state :: "run_result \<Rightarrow> agent_state option" where
  "final_state (Completed w state) = Some state"
| "final_state (Raised exn) = None"
| "final_state Recursion_limit = None"

section \<open>Auxiliary facts\<close>

subsection \<open>Substrings and the retry denylist\<close>

lemma startswith_iff: "startswith p s \<longleftrightarrow> (\<exists>r. s = p @ r)"
  by (induction p s rule: startswith.induct) auto

lemma contains_iff: "contains t s \<longleftrightarrow> (\<exists>pre post. s = pre @ t @ post)"
proof (induction s)
  case Nil
  then show ?case by auto
next
  case (Cons c cs)
  show ?case
  proof
    assume "contains t (c # cs)"
    then consider "startswith t (c # cs)" | "contains t cs" by auto
    then show "\<exists>pre post. c # cs = pre @ t @ post"
    proof cases
      case 1
      then obtain r where "c # cs = t @ r" by (auto simp: startswith_iff)
      then have "c # cs = [] @ t @ r" by simp
      then show ?thesis by blast
    next
      case 2
      then obtain pre post where "cs = pre @ t @ post" using Cons.IH by auto
      then have "c # cs = (c # pre) @ t @ post" by simp
      then show ?thesis by blast
    qed
  next
    assume "\<exists>pre post. c # cs = pre @ t @ post"
    then obtain pre post where eq: "c # cs = pre @ t @ post" by auto
    show "contains t (c # cs)"
    proof (cases pre)
      case Nil
      with eq have "startswith t (c # cs)" by (auto simp: startswith_iff)
      then show ?thesis by simp
    next
      case (Cons a pre')
      with eq have "cs = pre' @ t @ post" by simp
      then have "contains t cs" using Cons.IH by blast
      then show ?thesis by simp
    qed
  qed
qed

lemma any_term_in_iff: "any_term_in ts s \<longleftrightarrow> (\<exists>t\<in>set ts. contains t s)"
  by (induction ts) auto

lemma truthy_iff: "truthy x \<longleftrightarrow> (\<exists>e. x = Some e \<and> e \<noteq> [])"
  by (cases x) auto

lemma should_retry_query_iff:
  "should_retry_query state \<longleftrightarrow>
     (\<exists>e. error state = Some e \<and> e \<noteq> [] \<and> retry_count state < 2
          \<and> (\<forall>t\<in>set non_retryable. \<not> contains t (lower e)))"
  by (auto simp: should_retry_query_def max_retries_def any_term_in_iff truthy_iff)

lemma lower_append: "lower (a @ b) = lower a @ lower b"
  by (simp add: lower_def)

lemma denied:
  assumes "error state = Some (pre @ u @ post)" "lower u \<in> set non_retryable"
  shows "\<not> should_retry_query state"
proof -
  have "contains (lower u) (lower (pre @ u @ post))"
    unfolding contains_iff lower_append by blast
  with assms show ?thesis by (auto simp: should_retry_query_iff)
qed

subsection \<open>Tokens, case and parentheses\<close>

lemma is_space_lower_char: "is_space (lower_char c) = is_space c"
  by (auto simp: is_space_def lower_char_def Let_def)

lemma of_char_lower_char:
  "(of_char (lower_char c) :: nat) =
     (if (65 \<le> (of_char c :: nat) \<and> (of_char c :: nat) \<le> 90)
         \<or> (192 \<le> (of_char c :: nat) \<and> (of_char c :: nat) \<le> 222 \<and> (of_char c :: nat) \<noteq> 215)
      then of_char c + 32 else of_char c)"
  by (auto simp: lower_char_def Let_def)

lemma char_eq_code: "c = d \<longleftrightarrow> (of_char c :: nat) = of_char d"
  by simp

lemma lower_char_eq_paren:
  "lower_char c = CHR ''('' \<longleftrightarrow> c = CHR ''(''"
  "lower_char c = CHR '')'' \<longleftrightarrow> c = CHR '')''"
  unfolding char_eq_code [of _ "CHR ''(''"] char_eq_code [of _ "CHR '')''"] of_char_lower_char
  by auto

lemma split_go_lower:
  "split_go (lower cur) (lower s) = map lower (split_go cur s)"
proof (induction s arbitrary: cur)
  case Nil
  then show ?case by (simp add: lower_def)
next
  case (Cons a s)
  from Cons.IH [of "[]"] Cons.IH [of cur] Cons.IH [of "cur @ [a]"]
  show ?case by (simp add: lower_def is_space_lower_char)
qed

lemma split_ws_lower: "split_ws (lower s) = map lower (split_ws s)"
  using split_go_lower [of "[]" s] by (simp add: split_ws_def lower_def)

lemma split_go_dropWhile: "split_go [] (dropWhile is_space s) = split_go [] s"
  by (induction s) auto

lemma split_go_snoc_space: "is_space c \<Longrightarrow> split_go cur (s @ [c]) = split_go cur s"
  by (induction s arbitrary: cur) auto

lemma split_go_append_spaces:
  "\<forall>x\<in>set ws. is_space x \<Longrightarrow> split_go cur (s @ ws) = split_go cur s"
proof (induction ws rule: rev_induct)
  case Nil
  then show ?case by simp
next
  case (snoc x xs)
  have "split_go cur (s @ xs @ [x]) = split_go cur ((s @ xs) @ [x])" by simp
  also have "\<dots> = split_go cur (s @ xs)" using snoc.prems by (intro split_go_snoc_space) simp
  also have "\<dots> = split_go cur s" using snoc by simp
  finally show ?case .
qed

lemma rstrip_decomp:
  "s = rev (dropWhile is_space (rev s)) @ rev (takeWhile is_space (rev s))"
  by (metis rev_append rev_rev_ident takeWhile_dropWhile_id)

lemma split_go_rstrip: "split_go cur (rev (dropWhile is_space (rev s))) = split_go cur s"
proof -
  let ?a = "rev (dropWhile is_space (rev s))" and ?b = "rev (takeWhile is_space (rev s))"
  have "\<forall>x\<in>set ?b. is_space x" by (auto dest: set_takeWhileD)
  then have "split_go cur (?a @ ?b) = split_go cur ?a" by (rule split_go_append_spaces)
  then show ?thesis using rstrip_decomp [of s] by simp
qed

lemma split_ws_strip: "split_ws (strip s) = split_ws s"
  by (simp add: split_ws_def strip_def split_go_rstrip split_go_dropWhile)

lemma first_dangerous_Some:
  "first_dangerous ks toks = Some k \<Longrightarrow> k \<in> set ks \<and> k \<in> set toks"
  by (induction ks) (auto split: if_splits)

lemma first_dangerous_None:
  "first_dangerous ks toks = None \<longleftrightarrow> (\<forall>k\<in>set ks. k \<notin> set toks)"
  by (induction ks) auto

lemma count_char_dropWhile: "\<not> P c \<Longrightarrow> count_char c (dropWhile P s) = count_char c s"
  by (induction s) (auto simp: count_char_def)

lemma count_char_rev: "count_char c (rev s) = count_char c s"
  by (simp add: count_char_def flip: rev_filter)

lemma count_char_strip: "\<not> is_space c \<Longrightarrow> count_char c (strip s) = count_char c s"
  by (simp add: strip_def count_char_rev count_char_dropWhile)

lemma count_char_lower_paren:
  "count_char CHR ''('' (lower s) = count_char CHR ''('' s"
  "count_char CHR '')'' (lower s) = count_char CHR '')'' s"
  by (induction s) (auto simp: count_char_def lower_def lower_char_eq_paren)

lemma not_space_paren: "\<not> is_space CHR ''(''" "\<not> is_space CHR '')''"
  by code_simp+

lemma count_paren_sql_lower:
  "count_char CHR ''('' (strip (lower s)) = count_char CHR ''('' s"
  "count_char CHR '')'' (strip (lower s)) = count_char CHR '')'' s"
  by (simp_all add: count_char_strip not_space_paren count_char_lower_paren)

lemma tokens_sql_lower: "split_ws (strip (lower s)) = map lower (split_ws s)"
  by (simp add: split_ws_strip split_ws_lower)

lemma validate_dangerous:
  assumes "tok \<in> set (split_ws s)" "lower tok \<in> set dangerous_keywords"
  shows "\<exists>kw\<in>set dangerous_keywords. kw \<in> lower ` set (split_ws s)
           \<and> validate_sql_query s = (False, Some (''Query contains dangerous keyword: '' @ kw
               @ ''. Only SELECT queries are allowed.''))"
proof -
  let ?toks = "split_ws (strip (lower s))"
  have "lower tok \<in> set ?toks" using assms(1) by (simp add: tokens_sql_lower)
  with assms(2) have "first_dangerous dangerous_keywords ?toks \<noteq> None"
    by (auto simp: first_dangerous_None)
  then obtain kw where kw: "first_dangerous dangerous_keywords ?toks = Some kw" by auto
  then have "kw \<in> set dangerous_keywords" "kw \<in> set ?toks"
    by (auto dest: first_dangerous_Some)
  moreover have "validate_sql_query s = (False, Some (''Query contains dangerous keyword: '' @ kw
               @ ''. Only SELECT queries are allowed.''))"
    using kw by (simp add: validate_sql_query_def)
  ultimately show ?thesis by (auto simp: tokens_sql_lower)
qed

lemma validate_shape: "fst (validate_sql_query s) \<longleftrightarrow> snd (validate_sql_query s) = None"
  by (simp add: validate_sql_query_def Let_def split: option.splits)

lemma validate_not_select:
  "\<not> startswith ''select'' (strip (lower s)) \<Longrightarrow> \<not> fst (validate_sql_query s)"
  by (simp add: validate_sql_query_def Let_def split: option.splits)

lemma validate_unbalanced:
  "count_char CHR ''('' s \<noteq> count_char CHR '')'' s \<Longrightarrow> \<not> fst (validate_sql_query s)"
  by (simp add: validate_sql_query_def Let_def count_paren_sql_lower split: option.splits)

lemma validate_select_ok: "validate_sql_query ''SELECT * FROM t'' = (True, None)"
  by code_simp

subsection \<open>Fences\<close>

lemma not_space_backtick: "\<not> is_space CHR ''`''"
  by code_simp

lemma is_space_newline: "is_space CHR 0x0A"
  by code_simp

lemma strip_unspaced_ends:
  "\<not> is_space a \<Longrightarrow> \<not> is_space b \<Longrightarrow> strip (a # m @ [b]) = a # m @ [b]"
  by (simp add: strip_def)

lemma strip_cons_space: "is_space c \<Longrightarrow> strip (c # s) = strip s"
  by (simp add: strip_def)

lemma strip_snoc_space:
  assumes "is_space c"
  shows "strip (s @ [c]) = strip s"
proof (cases "\<forall>x\<in>set s. is_space x")
  case True
  then have a: "dropWhile is_space (s @ [c]) = []" and b: "dropWhile is_space s = []"
    using assms by (simp_all add: dropWhile_eq_Nil_conv)
  show ?thesis unfolding strip_def a b by simp
next
  case False
  then obtain x where "x \<in> set s" "\<not> is_space x" by auto
  then have "dropWhile is_space (s @ [c]) = dropWhile is_space s @ [c]"
    by (rule dropWhile_append1)
  then show ?thesis using assms by (simp add: strip_def)
qed

lemma startswith_fence_before_newline:
  assumes "startswith ''```'' (x @ NL @ y)"
  shows "startswith ''```'' x"
proof (cases x)
  case Nil
  with assms show ?thesis by (simp add: NL_def)
next
  case (Cons a x1)
  note c1 = this
  show ?thesis
  proof (cases x1)
    case Nil
    with assms c1 show ?thesis by (simp add: NL_def)
  next
    case (Cons b x2)
    note c2 = this
    show ?thesis
    proof (cases x2)
      case Nil
      with assms c1 c2 show ?thesis by (simp add: NL_def)
    next
      case (Cons c x3)
      with assms c1 c2 show ?thesis by auto
    qed
  qed
qed

lemma startswith_sql_fence: "startswith ''```sql'' x \<Longrightarrow> startswith ''```'' x"
  by (auto simp: startswith_iff)

lemma startswith_contains: "startswith t x \<Longrightarrow> contains t x"
  by (metis append_Nil contains_iff startswith_iff)

lemma replace_nomatch:
  "old \<noteq> [] \<Longrightarrow> \<not> startswith old (c # cs) \<Longrightarrow> replace old new (c # cs) = c # replace old new cs"
  by simp

lemma replace_match:
  "old \<noteq> [] \<Longrightarrow> replace old new (old @ r) = new @ replace old new r"
  by (cases old) (simp_all add: startswith_iff)

lemma replace_fence_tail:
  "\<not> contains ''```'' s \<Longrightarrow> replace ''```'' [] (s @ NL @ ''```'') = s @ NL"
proof (induction s)
  case Nil
  show ?case by (simp add: NL_def)
next
  case (Cons c cs)
  from Cons.prems have a: "\<not> startswith ''```'' (c # cs)" and b: "\<not> contains ''```'' cs"
    by auto
  have h: "\<not> startswith ''```'' (c # (cs @ NL @ ''```''))"
  proof
    assume "startswith ''```'' (c # (cs @ NL @ ''```''))"
    then have "startswith ''```'' ((c # cs) @ NL @ ''```'')" by (simp only: append_Cons)
    then show False using a startswith_fence_before_newline startswith_sql_fence by blast
  qed
  have "replace ''```'' [] (c # (cs @ NL @ ''```'')) = c # replace ''```'' [] (cs @ NL @ ''```'')"
    by (rule replace_nomatch [OF _ h]) simp
  with Cons.IH [OF b] show ?case by (simp only: append_Cons)
qed

lemma replace_sql_fence_tail:
  "\<not> contains ''```'' s \<Longrightarrow> replace ''```sql'' [] (s @ NL @ ''```'') = s @ NL @ ''```''"
proof (induction s)
  case Nil
  show ?case by (simp add: NL_def)
next
  case (Cons c cs)
  from Cons.prems have a: "\<not> startswith ''```'' (c # cs)" and b: "\<not> contains ''```'' cs"
    by auto
  have h: "\<not> startswith ''```sql'' (c # (cs @ NL @ ''```''))"
  proof
    assume "startswith ''```sql'' (c # (cs @ NL @ ''```''))"
    then have "startswith ''```sql'' ((c # cs) @ NL @ ''```'')" by (simp only: append_Cons)
    then show False using a startswith_fence_before_newline startswith_sql_fence by blast
  qed
  have "replace ''```sql'' [] (c # (cs @ NL @ ''```''))
      = c # replace ''```sql'' [] (cs @ NL @ ''```'')"
    by (rule replace_nomatch [OF _ h]) simp
  with Cons.IH [OF b] show ?case by (simp only: append_Cons)
qed

lemma strip_between_newlines: "strip (NL @ s @ NL) = strip s"
  using strip_snoc_space [of "CHR 0x0A" "CHR 0x0A # s"] strip_cons_space [of "CHR 0x0A" s]
  by (simp add: NL_def is_space_newline)

lemma no_fence_after_newline: "\<not> contains ''```'' s \<Longrightarrow> \<not> contains ''```'' (NL @ s)"
  by (simp add: NL_def)

lemma strip_fenced_sql: "strip (fenced_sql s) = fenced_sql s"
  using strip_unspaced_ends [of "CHR ''`''" "CHR ''`''" "''``sql'' @ NL @ s @ NL @ ''``''"]
  by (simp add: fenced_sql_def not_space_backtick)

lemma strip_fenced_bare: "strip (fenced_bare s) = fenced_bare s"
  using strip_unspaced_ends [of "CHR ''`''" "CHR ''`''" "''``'' @ NL @ s @ NL @ ''``''"]
  by (simp add: fenced_bare_def not_space_backtick)

lemma clean_fenced_sql:
  assumes "\<not> contains ''```'' s"
  shows "clean_markdown (fenced_sql s) = strip s"
proof -
  have nf: "\<not> contains ''```'' (NL @ s)" using assms by (rule no_fence_after_newline)
  have st: "startswith ''```sql'' (fenced_sql s)"
    by (simp add: fenced_sql_def)
  have "replace ''```sql'' [] (fenced_sql s) = replace ''```sql'' [] ((NL @ s) @ NL @ ''```'')"
    using replace_match [of "''```sql''" "[]" "NL @ s @ NL @ ''```''"]
    by (simp add: fenced_sql_def)
  also have "\<dots> = (NL @ s) @ NL @ ''```''" using nf by (rule replace_sql_fence_tail)
  finally have r1: "replace ''```sql'' [] (fenced_sql s) = NL @ s @ NL @ ''```''"
    by (simp only: append_assoc)
  have r2: "replace ''```'' [] (NL @ s @ NL @ ''```'') = NL @ s @ NL"
    using replace_fence_tail [OF nf] by (simp only: append_assoc)
  show ?thesis
    unfolding clean_markdown_def Let_def strip_fenced_sql
    using st by (simp only: r1 r2 if_True strip_between_newlines)
qed

lemma clean_fenced_bare:
  assumes "\<not> contains ''```'' s"
  shows "clean_markdown (fenced_bare s) = strip s"
proof -
  have nf: "\<not> contains ''```'' (NL @ s)" using assms by (rule no_fence_after_newline)
  have st: "\<not> startswith ''```sql'' (fenced_bare s)" "startswith ''```'' (fenced_bare s)"
    by (simp_all add: fenced_bare_def NL_def)
  have "replace ''```'' [] (fenced_bare s) = replace ''```'' [] ((NL @ s) @ NL @ ''```'')"
    using replace_match [of "''```''" "[]" "NL @ s @ NL @ ''```''"]
    by (simp add: fenced_bare_def)
  also have "\<dots> = (NL @ s) @ NL" using nf by (rule replace_fence_tail)
  finally have r: "replace ''```'' [] (fenced_bare s) = NL @ s @ NL"
    by (simp only: append_assoc)
  show ?thesis
    unfolding clean_markdown_def Let_def strip_fenced_bare
    using st by (simp only: r if_True if_False strip_between_newlines)
qed

lemma strip_decomp: "\<exists>a b. s = a @ strip s @ b"
proof -
  let ?d = "dropWhile is_space s"
  have 1: "s = takeWhile is_space s @ ?d" by simp
  have 2: "?d = rev (dropWhile is_space (rev ?d)) @ rev (takeWhile is_space (rev ?d))"
    by (metis rev_append rev_rev_ident takeWhile_dropWhile_id)
  have "s = takeWhile is_space s @ strip s @ rev (takeWhile is_space (rev ?d))"
    using 1 2 by (simp add: strip_def)
  then show ?thesis by blast
qed

lemma contains_strip: "contains t (strip s) \<Longrightarrow> contains t s"
proof -
  assume "contains t (strip s)"
  then obtain p q where pq: "strip s = p @ t @ q" by (auto simp: contains_iff)
  obtain a b where "s = a @ strip s @ b" using strip_decomp by blast
  with pq have "s = (a @ p) @ t @ (q @ b)" by simp
  then show ?thesis unfolding contains_iff by blast
qed

lemma clean_unfenced:
  assumes "\<not> contains ''```'' s"
  shows "clean_markdown s = strip s"
proof -
  have "\<not> contains ''```'' (strip s)" using assms contains_strip by blast
  then have "\<not> startswith ''```'' (strip s)" using startswith_contains by blast
  then have "\<not> startswith ''```sql'' (strip s)" "\<not> startswith ''```'' (strip s)"
    using startswith_sql_fence by blast+
  then show ?thesis by (simp add: clean_markdown_def Let_def)
qed

subsection \<open>Messages along a run\<close>

lemma messages_apply_update:
  "messages (apply_update st u) = (case u_messages u of None \<Rightarrow> messages st | Some ms \<Rightarrow> messages st @ ms)"
  by (simp add: apply_update_def)

lemma analyze_request_no_messages: "u_messages (snd (analyze_request_node e w st)) = None"
  by (simp add: analyze_request_node_def no_update_def Let_def split: prod.splits sum.splits)

lemma generate_sql_no_messages: "u_messages (snd (generate_sql_node e w st)) = None"
  by (simp add: generate_sql_node_def no_update_def Let_def split: prod.splits sum.splits)

lemma execute_query_no_messages: "u_messages (snd (execute_query_node e w st)) = None"
  by (simp add: execute_query_node_def no_query_update_def no_update_def split: prod.splits sum.splits option.splits)

lemma analyze_results_no_messages: "u_messages (snd (analyze_results_node e w st)) = None"
  by (simp add: analyze_results_node_def no_data_update_def no_update_def split: prod.splits sum.splits option.splits)

lemma respond_one_message: "respond_node st = Inr u \<Longrightarrow> \<exists>c. u_messages u = Some [AIMessage c]"
  by (auto simp: respond_node_def Let_def no_update_def split: option.splits)

lemma run_node_messages:
  assumes "run_node e nd w st = Inr (w', u)"
  shows "if nd = Respond then (\<exists>c. u_messages u = Some [AIMessage c]) else u_messages u = None"
proof (cases nd)
  case Analyze_request
  with assms analyze_request_no_messages [of e w st] show ?thesis by auto
next
  case Generate_sql
  with assms generate_sql_no_messages [of e w st] show ?thesis by auto
next
  case Execute_query
  with assms execute_query_no_messages [of e w st] show ?thesis by auto
next
  case Analyze_results
  with assms analyze_results_no_messages [of e w st] show ?thesis by auto
next
  case Respond
  with assms respond_one_message [of st u] show ?thesis by (auto split: sum.splits)
qed

lemma run_graph_messages:
  "run_graph e fuel nd w st = Completed w' st' \<Longrightarrow> \<exists>c. messages st' = messages st @ [AIMessage c]"
proof (induction fuel arbitrary: nd w st)
  case 0
  then show ?case by simp
next
  case (Suc k)
  from Suc.prems obtain w1 u where step: "run_node e nd w st = Inr (w1, u)"
    by (auto split: sum.splits)
  let ?st1 = "apply_update st u"
  show ?case
  proof (cases "nd = Respond")
    case True
    with step obtain c where "u_messages u = Some [AIMessage c]"
      using run_node_messages by fastforce
    moreover from Suc.prems step True have "st' = ?st1" by (simp add: Let_def)
    ultimately show ?thesis by (simp add: messages_apply_update)
  next
    case False
    with step have "u_messages u = None" using run_node_messages by fastforce
    then have keep: "messages ?st1 = messages st" by (simp add: messages_apply_update)
    from False obtain nd' where nx: "next_node nd ?st1 = Some nd'" by (cases nd) auto
    with Suc.prems step have "run_graph e k nd' w1 ?st1 = Completed w' st'"
      by (simp add: Let_def)
    from Suc.IH [OF this] keep show ?thesis by simp
  qed
qed

subsection \<open>The error after the execution step\<close>

text \<open>
  Whatever the execution step returns, the merged state never holds an empty error text:
  the step either clears \<open>error\<close> or sets it to a text with a fixed, non-empty prefix.
\<close>

lemma execute_error_not_empty:
  "error (apply_update st (snd (execute_query_node e w st))) \<noteq> Some []"
  by (auto simp: execute_query_node_def apply_update_def no_query_update_def no_update_def
        call_executor_def split: option.splits sum.splits prod.splits)

text \<open>
  When the error is not the empty string, "present" and "set" are the same, and the
  retry decision and the routing agree with the specification's wording of them.
\<close>

lemma truthy_present: "x \<noteq> Some [] \<Longrightarrow> truthy x \<longleftrightarrow> x \<noteq> None"
  by (cases x) auto

lemma retry_spec_agrees:
  assumes "error state \<noteq> Some []"
  shows "(error state \<noteq> None \<and> retry_permitted_spec (error state) (retry_count state))
           = should_retry_query state"
proof (cases "error state")
  case None
  then show ?thesis by (simp add: should_retry_query_def)
next
  case (Some e)
  with assms have "e \<noteq> []" by simp
  with Some show ?thesis
    by (simp add: should_retry_query_iff retry_permitted_spec_def non_retryable_def)
qed

lemma route_spec_agrees:
  assumes "error state \<noteq> Some []"
  shows "route_after_execution state = route_after_execution_spec state"
proof -
  have "(truthy (error state) \<and> should_retry_query state)
          = (error state \<noteq> None \<and> retry_permitted_spec (error state) (retry_count state))"
    using retry_spec_agrees [OF assms] truthy_present [OF assms] by blast
  then show ?thesis
    using truthy_present [OF assms]
    by (simp add: route_after_execution_def route_after_execution_spec_def)
qed

section \<open>The claims\<close>

subsection \<open>C1: a statement that fails validation\<close>

text \<open>
  C1 says that when the safety validation of the SQL-generation step fails, the failure
  is recorded in \<open>error\<close>, the invalid text is kept as \<open>sql_query\<close>, and the statement is
  not handed to the query executor. The first two hold; the third does not: the edge from
  the generation step to the execution step is unconditional and the execution step only
  skips an absent or empty statement. Here the backend answers \<^verbatim>\<open>DROP TABLE t\<close>:
  the validator rejects it, the state carries the error and the text, the next node is
  the execution step, and that step passes the text to the executor. The same happens in
  a whole run.
\<close>

theorem rejected_statement_is_executed:
  "validate_sql_query ''DROP TABLE t''
     = (False, Some ''Query contains dangerous keyword: drop. Only SELECT queries are allowed.'')
   \<and> error (apply_update (initial_state question)
               (snd (generate_sql_node env_drop_only world0 (initial_state question))))
     = Some ''Invalid SQL: Query contains dangerous keyword: drop. Only SELECT queries are allowed.''
   \<and> sql_query (apply_update (initial_state question)
               (snd (generate_sql_node env_drop_only world0 (initial_state question))))
     = Some ''DROP TABLE t''
   \<and> next_node Generate_sql (apply_update (initial_state question)
               (snd (generate_sql_node env_drop_only world0 (initial_state question))))
     = Some Execute_query
   \<and> executed (fst (execute_query_node env_drop_only
               (fst (generate_sql_node env_drop_only world0 (initial_state question)))
               (apply_update (initial_state question)
                 (snd (generate_sql_node env_drop_only world0 (initial_state question))))))
     = [''DROP TABLE t'']
   \<and> map_option executed
         (final_world (run_graph env_drop 25 Analyze_request world0 (initial_state question)))
     = Some [''DROP TABLE t'', ''SELECT 1'']"
  by code_simp

subsection \<open>C2: the retry decision\<close>

text \<open>
  C2 as stated: retry is permitted exactly when an error is present, fewer than two
  retries were made and the error text has none of the denylist terms. An error that is
  present but is the empty string falsifies this: the statement as worded permits the
  retry, the code (which tests the truth value of \<open>error\<close>) does not.
\<close>

theorem retry_empty_error_counterexample:
  "retry_permitted_spec (error (state_with_error [] 0)) (retry_count (state_with_error [] 0))
   \<and> \<not> should_retry_query (state_with_error [] 0)"
  by code_simp

text \<open>
  C2, amended: the retry decision depends on \<open>error\<close> and \<open>retry_count\<close> only; it permits
  a retry exactly when the error is present and not the empty string, \<open>retry_count < 2\<close>,
  and the lowercased error text contains none of the denylist terms; in particular an
  error text with a run of characters that lowercases to one of the four terms (the term
  in any case) denies the retry, whatever the retry count.
\<close>

theorem retry_policy:
  "(should_retry_query state \<longleftrightarrow>
      (\<exists>e. error state = Some e \<and> e \<noteq> [] \<and> retry_count state < 2
           \<and> (\<forall>t\<in>set non_retryable. \<not> contains t (lower e))))
   \<and> non_retryable = [''permission'', ''authentication'', ''credentials'', ''quota'']
   \<and> (error state = Some (pre @ u @ post) \<and> lower u \<in> set non_retryable
        \<longrightarrow> \<not> should_retry_query state)
   \<and> (error state = error state' \<and> retry_count state = retry_count state'
        \<longrightarrow> should_retry_query state = should_retry_query state')"
  using should_retry_query_iff [of state] denied [of state pre u post]
  by (auto simp: should_retry_query_def non_retryable_def)

theorem retry_policy_witness:
  "should_retry_query (state_with_error ''SQL syntax error'' 0)
   \<and> error (state_with_error ''Permission denied'' 0) = Some ([] @ ''Permission'' @ '' denied'')
   \<and> lower ''Permission'' \<in> set non_retryable
   \<and> \<not> should_retry_query (state_with_error ''Permission denied'' 0)
   \<and> should_retry_query (state_with_error ''SQL syntax error'' 0)
       = should_retry_query ((state_with_error ''SQL syntax error'' 0)\<lparr>sql_query := Some ''x''\<rparr>)"
proof -
  have a: "error (state_with_error ''Permission denied'' 0)
             = Some ([] @ ''Permission'' @ '' denied'')"
    by (simp add: state_with_error_def)
  have b: "lower ''Permission'' \<in> set non_retryable"
    by code_simp
  have c: "should_retry_query (state_with_error ''SQL syntax error'' 0)"
    by code_simp
  have d: "error (state_with_error ''SQL syntax error'' 0)
             = error ((state_with_error ''SQL syntax error'' 0)\<lparr>sql_query := Some ''x''\<rparr>)
           \<and> retry_count (state_with_error ''SQL syntax error'' 0)
             = retry_count ((state_with_error ''SQL syntax error'' 0)\<lparr>sql_query := Some ''x''\<rparr>)"
    by simp
  from a b c d
    retry_policy [of "state_with_error ''Permission denied'' 0" "[]" "''Permission''"
      "'' denied''" "state_with_error ''Permission denied'' 0"]
    retry_policy [of "state_with_error ''SQL syntax error'' 0" "[]" "[]" "[]"
      "(state_with_error ''SQL syntax error'' 0)\<lparr>sql_query := Some ''x''\<rparr>"]
  show ?thesis by blast
qed

subsection \<open>C3: routing after the execution step\<close>

text \<open>
  C3: on every state the routing function is evaluated on, which is a state merged from
  the update of the execution step, it returns what the specification words, with
  "present" read as "not absent": the SQL-generation step when the error is present and a
  retry is permitted; otherwise the analyze-results step when \<open>query_results\<close> is not
  absent; otherwise the respond step when the error is present; otherwise the
  analyze-results step. The four cases are also given one by one, for every state whose
  error is not the empty string; the states after the execution step are among these.
\<close>

theorem routing_after_execution:
  "route_after_execution (apply_update st (snd (execute_query_node e w st)))
     = route_after_execution_spec (apply_update st (snd (execute_query_node e w st)))
   \<and> error (apply_update st (snd (execute_query_node e w st))) \<noteq> Some []
   \<and> (error state \<noteq> Some [] \<longrightarrow>
        route_after_execution state = route_after_execution_spec state
        \<and> (error state \<noteq> None \<and> should_retry_query state
              \<longrightarrow> route_after_execution state = Generate_sql)
        \<and> (\<not> (error state \<noteq> None \<and> should_retry_query state)
              \<and> query_results state \<noteq> None
              \<longrightarrow> route_after_execution state = Analyze_results)
        \<and> (\<not> (error state \<noteq> None \<and> should_retry_query state)
              \<and> query_results state = None \<and> error state \<noteq> None
              \<longrightarrow> route_after_execution state = Respond)
        \<and> (error state = None \<and> query_results state = None
              \<longrightarrow> route_after_execution state = Analyze_results))"
proof -
  have post: "error (apply_update st (snd (execute_query_node e w st))) \<noteq> Some []"
    by (rule execute_error_not_empty)
  have cases: "error state \<noteq> Some [] \<longrightarrow>
        (error state \<noteq> None \<and> should_retry_query state
              \<longrightarrow> route_after_execution state = Generate_sql)
        \<and> (\<not> (error state \<noteq> None \<and> should_retry_query state)
              \<and> query_results state \<noteq> None
              \<longrightarrow> route_after_execution state = Analyze_results)
        \<and> (\<not> (error state \<noteq> None \<and> should_retry_query state)
              \<and> query_results state = None \<and> error state \<noteq> None
              \<longrightarrow> route_after_execution state = Respond)
        \<and> (error state = None \<and> query_results state = None
              \<longrightarrow> route_after_execution state = Analyze_results)"
    by (auto simp: route_after_execution_def truthy_present)
  from post cases route_spec_agrees [of state] route_spec_agrees [OF post]
  show ?thesis by blast
qed

theorem routing_after_execution_witness:
  "route_after_execution (apply_update ((initial_state question)\<lparr>sql_query := Some ''SELECT 1''\<rparr>)
       (snd (execute_query_node env_drop world0
          ((initial_state question)\<lparr>sql_query := Some ''SELECT 1''\<rparr>)))) = Generate_sql
   \<and> route_after_execution (state_with_error ''SQL syntax error'' 0) = Generate_sql
   \<and> route_after_execution ((initial_state question)\<lparr>query_results := Some demo_results\<rparr>)
       = Analyze_results
   \<and> route_after_execution (state_with_error ''Permission denied'' 0) = Respond
   \<and> route_after_execution (initial_state question) = Analyze_results"
proof -
  have p: "route_after_execution_spec
       (apply_update ((initial_state question)\<lparr>sql_query := Some ''SELECT 1''\<rparr>)
         (snd (execute_query_node env_drop world0
            ((initial_state question)\<lparr>sql_query := Some ''SELECT 1''\<rparr>)))) = Generate_sql"
    by code_simp
  have a: "error (state_with_error ''SQL syntax error'' 0) \<noteq> Some []
           \<and> error (state_with_error ''SQL syntax error'' 0) \<noteq> None
           \<and> should_retry_query (state_with_error ''SQL syntax error'' 0)"
    by code_simp
  have b: "error ((initial_state question)\<lparr>query_results := Some demo_results\<rparr>) \<noteq> Some []
           \<and> \<not> (error ((initial_state question)\<lparr>query_results := Some demo_results\<rparr>) \<noteq> None
               \<and> should_retry_query ((initial_state question)\<lparr>query_results := Some demo_results\<rparr>))
           \<and> query_results ((initial_state question)\<lparr>query_results := Some demo_results\<rparr>) \<noteq> None"
    by (simp add: initial_state_def)
  have c: "error (state_with_error ''Permission denied'' 0) \<noteq> Some []
           \<and> \<not> (error (state_with_error ''Permission denied'' 0) \<noteq> None
               \<and> should_retry_query (state_with_error ''Permission denied'' 0))
           \<and> query_results (state_with_error ''Permission denied'' 0) = None
           \<and> error (state_with_error ''Permission denied'' 0) \<noteq> None"
    by code_simp
  have d: "error (initial_state question) \<noteq> Some []
           \<and> error (initial_state question) = None
           \<and> query_results (initial_state question) = None"
    by (simp add: initial_state_def)
  have 0: "route_after_execution
       (apply_update ((initial_state question)\<lparr>sql_query := Some ''SELECT 1''\<rparr>)
         (snd (execute_query_node env_drop world0
            ((initial_state question)\<lparr>sql_query := Some ''SELECT 1''\<rparr>)))) = Generate_sql"
    using p routing_after_execution [of "(initial_state question)\<lparr>sql_query := Some ''SELECT 1''\<rparr>"
        env_drop world0, THEN conjunct1]
    by simp
  have 1: "route_after_execution (state_with_error ''SQL syntax error'' 0) = Generate_sql"
    using a routing_after_execution [of _ _ _ "state_with_error ''SQL syntax error'' 0",
        THEN conjunct2, THEN conjunct2]
    by blast
  have 2: "route_after_execution ((initial_state question)\<lparr>query_results := Some demo_results\<rparr>)
             = Analyze_results"
    using b routing_after_execution [of _ _ _
        "(initial_state question)\<lparr>query_results := Some demo_results\<rparr>",
        THEN conjunct2, THEN conjunct2]
    by blast
  have 3: "route_after_execution (state_with_error ''Permission denied'' 0) = Respond"
    using c routing_after_execution [of _ _ _ "state_with_error ''Permission denied'' 0",
        THEN conjunct2, THEN conjunct2]
    by blast
  have 4: "route_after_execution (initial_state question) = Analyze_results"
    using d routing_after_execution [of _ _ _ "initial_state question",
        THEN conjunct2, THEN conjunct2]
    by blast
  from 0 1 2 3 4 show ?thesis by simp
qed

subsection \<open>C4: the execute-query step\<close>

text \<open>
  C4 as stated: on a failure of the executor the step sets \<open>error\<close> to the executor's
  message. The code sets it to that message after a fixed prefix: with an executor that
  fails with \<^verbatim>\<open>boom\<close>, the error is not \<^verbatim>\<open>boom\<close>.
\<close>

theorem execute_error_text_counterexample:
  "execute_query_direct env_boom 0 ''SELECT 1'' = Inl ''boom''
   \<and> u_error (snd (execute_query_node env_boom world0
                     ((initial_state question)\<lparr>sql_query := Some ''SELECT 1''\<rparr>)))
       \<noteq> Some (Some ''boom'')
   \<and> u_error (snd (execute_query_node env_boom world0
                     ((initial_state question)\<lparr>sql_query := Some ''SELECT 1''\<rparr>)))
       = Some (Some ''Query execution error: boom'')"
  by code_simp

text \<open>
  C4, amended: if \<open>sql_query\<close> is absent the step returns an update that sets \<open>error\<close> to
  \<^verbatim>\<open>No SQL query to execute\<close> and \<open>query_results\<close> to absent and does not mention
  \<open>retry_count\<close> (the executor is not called); if the executor succeeds on a non-empty
  statement the update stores the results, clears \<open>error\<close> and resets \<open>retry_count\<close> to 0;
  if the executor fails the update clears \<open>query_results\<close>, sets \<open>error\<close> to
  \<^verbatim>\<open>Query execution error: \<close> followed by the executor's message, and sets
  \<open>retry_count\<close> to its value plus one.
\<close>

theorem execute_query_cases:
  "(sql_query state = None \<longrightarrow>
      execute_query_node e w state =
        (w, no_update\<lparr>u_error := Some (Some ''No SQL query to execute''),
                       u_query_results := Some None\<rparr>)
      \<and> retry_count (apply_update state (snd (execute_query_node e w state)))
          = retry_count state)
   \<and> (sql_query state = Some q \<and> q \<noteq> []
        \<and> execute_query_direct e (length (executed w)) q = Inr df
      \<longrightarrow> execute_query_node e w state =
        (w\<lparr>executed := executed w @ [q]\<rparr>,
         no_update\<lparr>u_query_results := Some (Some df), u_error := Some None,
                    u_retry_count := Some 0\<rparr>))
   \<and> (sql_query state = Some q \<and> q \<noteq> []
        \<and> execute_query_direct e (length (executed w)) q = Inl msg
      \<longrightarrow> execute_query_node e w state =
        (w\<lparr>executed := executed w @ [q]\<rparr>,
         no_update\<lparr>u_error := Some (Some (''Query execution error: '' @ msg)),
                    u_query_results := Some None,
                    u_retry_count := Some (retry_count state + 1)\<rparr>))"
  by (simp add: execute_query_node_def no_query_update_def call_executor_def apply_update_def
        no_update_def)

theorem execute_query_cases_witness:
  "u_retry_count (snd (execute_query_node env_drop world0 (initial_state question))) = None
   \<and> u_retry_count (snd (execute_query_node env_drop world0
         ((initial_state question)\<lparr>sql_query := Some ''SELECT 1''\<rparr>))) = Some 1
   \<and> u_retry_count (snd (execute_query_node env_drop
         (world0\<lparr>executed := [''DROP TABLE t'']\<rparr>)
         ((initial_state question)\<lparr>sql_query := Some ''SELECT 1'', retry_count := 1\<rparr>))) = Some 0"
proof -
  have a: "sql_query (initial_state question) = None"
    by (simp add: initial_state_def)
  have b: "sql_query ((initial_state question)\<lparr>sql_query := Some ''SELECT 1''\<rparr>) = Some ''SELECT 1''
           \<and> ''SELECT 1'' \<noteq> []
           \<and> execute_query_direct env_drop (length (executed world0)) ''SELECT 1''
               = Inl ''Syntax error''"
    by code_simp
  have c: "sql_query ((initial_state question)\<lparr>sql_query := Some ''SELECT 1'', retry_count := 1\<rparr>)
             = Some ''SELECT 1''
           \<and> ''SELECT 1'' \<noteq> []
           \<and> execute_query_direct env_drop
               (length (executed (world0\<lparr>executed := [''DROP TABLE t'']\<rparr>))) ''SELECT 1''
               = Inr demo_results"
    by code_simp
  have r: "retry_count ((initial_state question)\<lparr>sql_query := Some ''SELECT 1''\<rparr>) = 0"
    by (simp add: initial_state_def)
  from a b c r
    execute_query_cases [of "initial_state question" env_drop world0]
    execute_query_cases [of "(initial_state question)\<lparr>sql_query := Some ''SELECT 1''\<rparr>"
      env_drop world0 "''SELECT 1''" demo_results "''Syntax error''"]
    execute_query_cases [of
      "(initial_state question)\<lparr>sql_query := Some ''SELECT 1'', retry_count := 1\<rparr>"
      env_drop "world0\<lparr>executed := [''DROP TABLE t'']\<rparr>" "''SELECT 1''" demo_results
      "''Syntax error''"]
  show ?thesis by (simp add: no_update_def)
qed

subsection \<open>C5: the schema context\<close>

text \<open>
  C5 says that in one run the table schemas are fetched from the catalog at most once and
  reused across every SQL-generation retry. The generation step stores the fetched schemas
  in its update only on the path where the statement is generated and valid; when the
  backend fails (or the statement is rejected) the update leaves \<open>schema_context\<close> out,
  and the retry fetches again. Here the backend fails on the first generation and answers
  on the second: the run completes with two fetches.
\<close>

theorem schema_fetched_twice:
  "map_option schema_fetches
     (final_world (run_graph env_llm_down 25 Analyze_request world0 (initial_state question)))
   = Some 2"
  by code_simp

subsection \<open>C6: fences around the generated statement\<close>

text \<open>
  C6 as stated: for every text, the clean-up applied to the text wrapped in a fenced code
  block, with a language tag or bare, gives the same as the clean-up applied to the text
  itself. Two kinds of input falsify it. A text that has a fence inside (here at the end
  of a comment): unwrapped it does not start with a fence and is kept whole, wrapped
  every fence in it is deleted. And a fence whose language tag is not exactly
  \<^verbatim>\<open>sql\<close>: the clean-up knows that one tag only, so the tag \<^verbatim>\<open>SQL\<close> or
  \<^verbatim>\<open>bigquery\<close> stays in front of the statement and of the tag \<^verbatim>\<open>sqlite\<close>
  the letters \<^verbatim>\<open>ite\<close> stay.
\<close>

theorem fence_stripping_counterexample:
  "clean_markdown (fenced_sql ''SELECT 1 -- ```'') = ''SELECT 1 --''
   \<and> clean_markdown (fenced_bare ''SELECT 1 -- ```'') = ''SELECT 1 --''
   \<and> clean_markdown ''SELECT 1 -- ```'' = ''SELECT 1 -- ```''
   \<and> clean_markdown (fenced_tagged ''SQL'' ''SELECT 1'') = ''SQL'' @ NL @ ''SELECT 1''
   \<and> clean_markdown (fenced_tagged ''bigquery'' ''SELECT 1'') = ''bigquery'' @ NL @ ''SELECT 1''
   \<and> clean_markdown (fenced_tagged ''sqlite'' ''SELECT 1'') = ''ite'' @ NL @ ''SELECT 1''
   \<and> clean_markdown ''SELECT 1'' = ''SELECT 1''"
  by code_simp

text \<open>
  C6, amended: for every text that contains no run of three backticks, the clean-up of
  the text wrapped in a fenced code block, with the language tag \<^verbatim>\<open>sql\<close> or bare,
  equals the clean-up of the unwrapped text, which is the text with the surrounding
  whitespace removed. Deleting every fence of a fenced answer is how the clean-up is
  written; a text with a fence inside is therefore left out. A fence with another
  language tag is left out as well, neither promised nor denied: that the tag stays in
  the statement is a defect of the clean-up, whose own comment says it removes any
  markdown formatting, not behaviour to rely on.
\<close>

theorem fence_stripping:
  assumes "\<not> contains ''```'' s"
  shows "clean_markdown (fenced_sql s) = clean_markdown s
       \<and> clean_markdown (fenced_bare s) = clean_markdown s
       \<and> clean_markdown s = strip s"
  using assms by (simp add: clean_fenced_sql clean_fenced_bare clean_unfenced)

theorem fence_stripping_witness:
  "\<not> contains ''```'' '' SELECT `a` FROM t ''
   \<and> clean_markdown (fenced_sql '' SELECT `a` FROM t '') = ''SELECT `a` FROM t''
   \<and> clean_markdown (fenced_bare '' SELECT `a` FROM t '') = ''SELECT `a` FROM t''"
proof -
  have a: "\<not> contains ''```'' '' SELECT `a` FROM t ''"
    by code_simp
  have b: "strip '' SELECT `a` FROM t '' = ''SELECT `a` FROM t''"
    by code_simp
  from a b fence_stripping [of "'' SELECT `a` FROM t ''"]
  show ?thesis by simp
qed

subsection \<open>C7: the SQL safety validator\<close>

text \<open>
  C7: for every input the validator returns a flag and a reason, the reason being absent
  exactly when the flag is true (it is a total function: there is no input on which it
  raises). A statement with a whitespace-delimited token that lowercases to one of drop,
  delete, truncate, insert, update, alter, create is rejected with a reason that names a
  forbidden keyword occurring among its lowercased tokens; a statement whose trimmed,
  lowercased text does not begin with \<^verbatim>\<open>select\<close> is rejected; a statement with unequal
  counts of opening and closing parentheses is rejected; \<^verbatim>\<open>SELECT * FROM t\<close> is
  accepted.
\<close>

theorem validate_sql_query_properties:
  "(fst (validate_sql_query s) \<longleftrightarrow> snd (validate_sql_query s) = None)
   \<and> dangerous_keywords
       = [''drop'', ''delete'', ''truncate'', ''insert'', ''update'', ''alter'', ''create'']
   \<and> (tok \<in> set (split_ws s) \<and> lower tok \<in> set dangerous_keywords \<longrightarrow>
        (\<exists>kw\<in>set dangerous_keywords. kw \<in> lower ` set (split_ws s)
           \<and> validate_sql_query s = (False, Some (''Query contains dangerous keyword: '' @ kw
               @ ''. Only SELECT queries are allowed.''))))
   \<and> (\<not> startswith ''select'' (strip (lower s)) \<longrightarrow> \<not> fst (validate_sql_query s))
   \<and> (count_char CHR ''('' s \<noteq> count_char CHR '')'' s \<longrightarrow> \<not> fst (validate_sql_query s))
   \<and> validate_sql_query ''SELECT * FROM t'' = (True, None)"
  using validate_shape [of s] validate_dangerous [of tok s] validate_not_select [of s]
    validate_unbalanced [of s] validate_select_ok
  by (simp add: dangerous_keywords_def)

theorem validate_sql_query_properties_witness:
  "''DROP'' \<in> set (split_ws ''DROP TABLE t'') \<and> lower ''DROP'' \<in> set dangerous_keywords
   \<and> \<not> fst (validate_sql_query ''DROP TABLE t'')
   \<and> \<not> startswith ''select'' (strip (lower '' Show tables''))
   \<and> \<not> fst (validate_sql_query '' Show tables'')
   \<and> count_char CHR ''('' ''SELECT * FROM t WHERE (a=1''
       \<noteq> count_char CHR '')'' ''SELECT * FROM t WHERE (a=1''
   \<and> \<not> fst (validate_sql_query ''SELECT * FROM t WHERE (a=1'')"
proof -
  have a: "''DROP'' \<in> set (split_ws ''DROP TABLE t'') \<and> lower ''DROP'' \<in> set dangerous_keywords"
    by code_simp
  have b: "\<not> startswith ''select'' (strip (lower '' Show tables''))"
    by code_simp
  have c: "count_char CHR ''('' ''SELECT * FROM t WHERE (a=1''
             \<noteq> count_char CHR '')'' ''SELECT * FROM t WHERE (a=1''"
    by code_simp
  from a validate_sql_query_properties [of "''DROP TABLE t''" "''DROP''"]
  have a': "\<not> fst (validate_sql_query ''DROP TABLE t'')" by auto
  from b validate_sql_query_properties [of "'' Show tables''"]
  have b': "\<not> fst (validate_sql_query '' Show tables'')" by blast
  from c validate_sql_query_properties [of "''SELECT * FROM t WHERE (a=1''"]
  have c': "\<not> fst (validate_sql_query ''SELECT * FROM t WHERE (a=1'')" by blast
  from a b c a' b' c' show ?thesis by blast
qed

subsection \<open>C8: the conversation grows by one message\<close>

text \<open>
  C8: the updates of the intent, generation, execution and analysis steps do not mention
  \<open>messages\<close>; an update returned by the respond step holds exactly one message; the
  merge appends the messages of an update to those of the state; and every run of the
  graph that completes, with any backend, executor and catalog and so with any number of
  generation and execution retries, ends with the initial conversation followed by
  exactly one message.
\<close>

theorem conversation_accumulation:
  "u_messages (snd (analyze_request_node e w state)) = None
   \<and> u_messages (snd (generate_sql_node e w state)) = None
   \<and> u_messages (snd (execute_query_node e w state)) = None
   \<and> u_messages (snd (analyze_results_node e w state)) = None
   \<and> (respond_node state = Inr u \<longrightarrow> (\<exists>c. u_messages u = Some [AIMessage c]))
   \<and> messages (apply_update state u)
       = messages state @ (case u_messages u of None \<Rightarrow> [] | Some ms \<Rightarrow> ms)
   \<and> (final_state (run_graph e fuel Analyze_request w state) = Some state' \<longrightarrow>
        length (messages state') = length (messages state) + 1
        \<and> (\<exists>c. messages state' = messages state @ [AIMessage c]))"
proof -
  have "final_state (run_graph e fuel Analyze_request w state) = Some state' \<longrightarrow>
          (\<exists>c. messages state' = messages state @ [AIMessage c])"
  proof
    assume "final_state (run_graph e fuel Analyze_request w state) = Some state'"
    then obtain w' where "run_graph e fuel Analyze_request w state = Completed w' state'"
      by (cases "run_graph e fuel Analyze_request w state") auto
    then show "\<exists>c. messages state' = messages state @ [AIMessage c]"
      by (rule run_graph_messages)
  qed
  moreover have "messages (apply_update state u)
       = messages state @ (case u_messages u of None \<Rightarrow> [] | Some ms \<Rightarrow> ms)"
    by (simp add: messages_apply_update split: option.splits)
  ultimately show ?thesis
    using analyze_request_no_messages [of e w state] generate_sql_no_messages [of e w state]
      execute_query_no_messages [of e w state] analyze_results_no_messages [of e w state]
      respond_one_message [of state u]
    by auto
qed

theorem conversation_accumulation_witness:
  "final_state (run_graph env_drop 25 Analyze_request world0 (initial_state question)) \<noteq> None
   \<and> map_option (\<lambda>st. length (messages st))
        (final_state (run_graph env_drop 25 Analyze_request world0 (initial_state question)))
      = Some 1
   \<and> map_option (\<lambda>w. length (executed w))
        (final_world (run_graph env_drop 25 Analyze_request world0 (initial_state question)))
      = Some 2"
proof -
  have a: "final_state (run_graph env_drop 25 Analyze_request world0 (initial_state question))
             \<noteq> None"
    by code_simp
  have b: "map_option (\<lambda>w. length (executed w))
        (final_world (run_graph env_drop 25 Analyze_request world0 (initial_state question)))
      = Some 2"
    by code_simp
  from a obtain st where
    st: "final_state (run_graph env_drop 25 Analyze_request world0 (initial_state question))
           = Some st"
    by auto
  with conversation_accumulation [of env_drop world0 "initial_state question" _ 25 st]
  have "length (messages st) = length (messages (initial_state question)) + 1" by blast
  then have "length (messages st) = 1" by (simp add: initial_state_def)
  with a b st show ?thesis by simp
qed

subsection \<open>C9: no data\<close>

text \<open>
  C9: when \<open>query_results\<close> is absent or has no rows, the analyze-results step returns the
  update that sets \<open>insights\<close> to the fixed no-data sentence and \<open>error\<close> to absent and
  mentions nothing else, and it leaves the record of calls to the backend as it was; after
  the merge \<open>error\<close> is absent.
\<close>

theorem analyze_results_no_data:
  assumes "query_results state = None \<or> (\<exists>df. query_results state = Some df \<and> rows df = [])"
  shows "analyze_results_node e w state =
           (w, no_update\<lparr>u_insights := Some (Some
                 ''No data was returned from the query. The requested analysis could not be completed.''),
               u_error := Some None\<rparr>)
       \<and> llm_calls (fst (analyze_results_node e w state)) = llm_calls w
       \<and> error (apply_update state (snd (analyze_results_node e w state))) = None"
  using assms
  by (auto simp: analyze_results_node_def no_data_update_def no_data_insight_def empty_def
        apply_update_def no_update_def)

theorem analyze_results_no_data_witness:
  "query_results ((state_with_error ''old'' 0)\<lparr>query_results := Some no_rows\<rparr>) = Some no_rows
   \<and> rows no_rows = []
   \<and> u_insights (snd (analyze_results_node env_drop world0
         ((state_with_error ''old'' 0)\<lparr>query_results := Some no_rows\<rparr>)))
       = Some (Some
           ''No data was returned from the query. The requested analysis could not be completed.'')
   \<and> error (apply_update ((state_with_error ''old'' 0)\<lparr>query_results := Some no_rows\<rparr>)
        (snd (analyze_results_node env_drop world0
           ((state_with_error ''old'' 0)\<lparr>query_results := Some no_rows\<rparr>)))) = None
   \<and> llm_calls (fst (analyze_results_node env_drop world0
         ((state_with_error ''old'' 0)\<lparr>query_results := Some no_rows\<rparr>))) = []"
proof -
  have a: "query_results ((state_with_error ''old'' 0)\<lparr>query_results := Some no_rows\<rparr>)
             = Some no_rows \<and> rows no_rows = []"
    by (simp add: no_rows_def)
  then have "query_results ((state_with_error ''old'' 0)\<lparr>query_results := Some no_rows\<rparr>) = None
      \<or> (\<exists>df. query_results ((state_with_error ''old'' 0)\<lparr>query_results := Some no_rows\<rparr>)
                 = Some df \<and> rows df = [])"
    by blast
  note r = analyze_results_no_data [OF this, of env_drop world0]
  from r have i: "u_insights (snd (analyze_results_node env_drop world0
         ((state_with_error ''old'' 0)\<lparr>query_results := Some no_rows\<rparr>)))
       = Some (Some
           ''No data was returned from the query. The requested analysis could not be completed.'')"
    by (simp add: no_update_def)
  from r have c: "llm_calls (fst (analyze_results_node env_drop world0
         ((state_with_error ''old'' 0)\<lparr>query_results := Some no_rows\<rparr>))) = []"
    by (simp add: world0_def)
  from r have "error (apply_update ((state_with_error ''old'' 0)\<lparr>query_results := Some no_rows\<rparr>)
        (snd (analyze_results_node env_drop world0
           ((state_with_error ''old'' 0)\<lparr>query_results := Some no_rows\<rparr>)))) = None"
    by blast
  with a i c show ?thesis by blast
qed

subsection \<open>C10: an empty statement\<close>

text \<open>
  C10: when \<open>sql_query\<close> is present but is the empty string, the execute-query step does
  what it does when \<open>sql_query\<close> is absent: it returns the update that sets \<open>error\<close> to
  \<^verbatim>\<open>No SQL query to execute\<close> and \<open>query_results\<close> to absent, does not mention
  \<open>retry_count\<close>, and does not call the executor.
\<close>

theorem execute_empty_query:
  assumes "sql_query state = Some []"
  shows "execute_query_node e w state = execute_query_node e w (state\<lparr>sql_query := None\<rparr>)
       \<and> execute_query_node e w state =
           (w, no_update\<lparr>u_error := Some (Some ''No SQL query to execute''),
                          u_query_results := Some None\<rparr>)
       \<and> u_retry_count (snd (execute_query_node e w state)) = None
       \<and> executed (fst (execute_query_node e w state)) = executed w"
  using assms by (simp add: execute_query_node_def no_query_update_def no_update_def)

theorem execute_empty_query_witness:
  "sql_query ((initial_state question)\<lparr>sql_query := Some []\<rparr>) = Some []
   \<and> u_error (snd (execute_query_node env_drop world0
         ((initial_state question)\<lparr>sql_query := Some []\<rparr>)))
       = Some (Some ''No SQL query to execute'')
   \<and> u_retry_count (snd (execute_query_node env_drop world0
         ((initial_state question)\<lparr>sql_query := Some []\<rparr>))) = None
   \<and> executed (fst (execute_query_node env_drop world0
         ((initial_state question)\<lparr>sql_query := Some []\<rparr>))) = []"
proof -
  have a: "sql_query ((initial_state question)\<lparr>sql_query := Some []\<rparr>) = Some []"
    by simp
  note r = execute_empty_query [OF a, of env_drop world0]
  from r have "execute_query_node env_drop world0
         ((initial_state question)\<lparr>sql_query := Some []\<rparr>) =
           (world0, no_update\<lparr>u_error := Some (Some ''No SQL query to execute''),
                               u_query_results := Some None\<rparr>)"
    by blast
  then have e: "u_error (snd (execute_query_node env_drop world0
         ((initial_state question)\<lparr>sql_query := Some []\<rparr>)))
       = Some (Some ''No SQL query to execute'')"
    by (simp add: no_update_def)
  from r have "executed (fst (execute_query_node env_drop world0
         ((initial_state question)\<lparr>sql_query := Some []\<rparr>))) = executed world0"
    by blast
  then have x: "executed (fst (execute_query_node env_drop world0
         ((initial_state question)\<lparr>sql_query := Some []\<rparr>))) = []"
    by (simp add: world0_def)
  from r a e x show ?thesis by blast
qed

end
